theory Spec2Isabelle
  imports Main
begin

section \<open>The platform: JSON text\<close>

text \<open>
  \<open>ws.onmessage\<close> hands \<open>event.data\<close> to the built-in \<open>JSON.parse\<close>. The built-in is
  modelled after the JSON grammar (ECMA-404) that it implements: a character-level
  lexer followed by a token-level pushdown parser, both by structural recursion, so
  both are total. A text frame is a \<open>string\<close>; a decoded JavaScript string is the list
  of its code units, since a \<open>\u\<close> escape can denote a unit beyond one byte. A number
  is kept as its lexeme (its floating point value is not modelled). An object keeps
  its members in the order of the text, duplicates included. A frame that is not
  text reaches \<open>JSON.parse\<close> as the text of its conversion to a string, such as
  \<open>[object Blob]\<close>. An engine's limit on the depth of nesting is not modelled.
\<close>

type_synonym jsstring = "nat list"

datatype json =
    JNull
  | JBool bool
  | JNumber string
  | JString jsstring
  | JArray "json list"
  | JObject "(jsstring \<times> json) list"

datatype token =
    TLBrace | TRBrace | TLBracket | TRBracket | TColon | TComma
  | TStr jsstring | TNum string | TTrue | TFalse | TNull

datatype numphase = NMinus | NZero | NInt | NDot | NFrac | NExp | NExpSign | NExpDigits

datatype lexstate =
    LStart
  | LString jsstring
  | LEscape jsstring
  | LUnicode jsstring "nat list"
  | LNumber numphase string
  | LLiteral string token

datatype start = Skip | Emit token | Enter lexstate | Reject

definition units :: "string \<Rightarrow> jsstring" where
  "units cs = map of_char cs"

definition digit :: "char \<Rightarrow> bool" where
  "digit c = (48 \<le> (of_char c :: nat) \<and> (of_char c :: nat) \<le> 57)"

definition exponent_mark :: "char \<Rightarrow> bool" where
  "exponent_mark c = (c = CHR ''e'' \<or> c = CHR ''E'')"

fun num_step :: "numphase \<Rightarrow> char \<Rightarrow> numphase option" where
  "num_step NMinus c =
     (if c = CHR ''0'' then Some NZero else if digit c then Some NInt else None)"
| "num_step NZero c =
     (if c = CHR ''.'' then Some NDot else if exponent_mark c then Some NExp else None)"
| "num_step NInt c =
     (if digit c then Some NInt else if c = CHR ''.'' then Some NDot
      else if exponent_mark c then Some NExp else None)"
| "num_step NDot c = (if digit c then Some NFrac else None)"
| "num_step NFrac c =
     (if digit c then Some NFrac else if exponent_mark c then Some NExp else None)"
| "num_step NExp c =
     (if c = CHR ''+'' \<or> c = CHR ''-'' then Some NExpSign
      else if digit c then Some NExpDigits else None)"
| "num_step NExpSign c = (if digit c then Some NExpDigits else None)"
| "num_step NExpDigits c = (if digit c then Some NExpDigits else None)"

fun num_final :: "numphase \<Rightarrow> bool" where
  "num_final NZero = True"
| "num_final NInt = True"
| "num_final NFrac = True"
| "num_final NExpDigits = True"
| "num_final _ = False"

definition hexval :: "char \<Rightarrow> nat option" where
  "hexval c =
     (let n = (of_char c :: nat) in
      if 48 \<le> n \<and> n \<le> 57 then Some (n - 48)
      else if 65 \<le> n \<and> n \<le> 70 then Some (n - 55)
      else if 97 \<le> n \<and> n \<le> 102 then Some (n - 87)
      else None)"

definition hex4 :: "nat list \<Rightarrow> nat" where
  "hex4 ds = foldl (\<lambda>a d. 16 * a + d) 0 ds"

definition escape :: "char \<Rightarrow> nat option" where
  "escape c =
     (if c = CHR 0x22 then Some 0x22
      else if c = CHR 0x5C then Some 0x5C
      else if c = CHR ''/'' then Some 0x2F
      else if c = CHR ''b'' then Some 8
      else if c = CHR ''f'' then Some 12
      else if c = CHR ''n'' then Some 10
      else if c = CHR ''r'' then Some 13
      else if c = CHR ''t'' then Some 9
      else None)"

definition lex_start :: "char \<Rightarrow> start" where
  "lex_start c =
     (if c = CHR 0x20 \<or> c = CHR 0x09 \<or> c = CHR 0x0A \<or> c = CHR 0x0D then Skip
      else if c = CHR ''{'' then Emit TLBrace
      else if c = CHR ''}'' then Emit TRBrace
      else if c = CHR ''['' then Emit TLBracket
      else if c = CHR '']'' then Emit TRBracket
      else if c = CHR '':'' then Emit TColon
      else if c = CHR '','' then Emit TComma
      else if c = CHR 0x22 then Enter (LString [])
      else if c = CHR ''-'' then Enter (LNumber NMinus [c])
      else if c = CHR ''0'' then Enter (LNumber NZero [c])
      else if digit c then Enter (LNumber NInt [c])
      else if c = CHR ''t'' then Enter (LLiteral ''rue'' TTrue)
      else if c = CHR ''f'' then Enter (LLiteral ''alse'' TFalse)
      else if c = CHR ''n'' then Enter (LLiteral ''ull'' TNull)
      else Reject)"

fun lex :: "lexstate \<Rightarrow> string \<Rightarrow> token list option" where
  "lex LStart [] = Some []"
| "lex LStart (c # cs) =
     (case lex_start c of
        Skip \<Rightarrow> lex LStart cs
      | Emit t \<Rightarrow> map_option (Cons t) (lex LStart cs)
      | Enter st \<Rightarrow> lex st cs
      | Reject \<Rightarrow> None)"
| "lex (LString acc) [] = None"
| "lex (LString acc) (c # cs) =
     (if c = CHR 0x22 then map_option (Cons (TStr acc)) (lex LStart cs)
      else if c = CHR 0x5C then lex (LEscape acc) cs
      else if (of_char c :: nat) < 32 then None
      else lex (LString (acc @ [of_char c])) cs)"
| "lex (LEscape acc) [] = None"
| "lex (LEscape acc) (c # cs) =
     (if c = CHR ''u'' then lex (LUnicode acc []) cs
      else case escape c of
        None \<Rightarrow> None
      | Some u \<Rightarrow> lex (LString (acc @ [u])) cs)"
| "lex (LUnicode acc ds) [] = None"
| "lex (LUnicode acc ds) (c # cs) =
     (case hexval c of
        None \<Rightarrow> None
      | Some d \<Rightarrow>
          if length ds = 3 then lex (LString (acc @ [hex4 (ds @ [d])])) cs
          else lex (LUnicode acc (ds @ [d])) cs)"
| "lex (LNumber ph acc) [] = (if num_final ph then Some [TNum acc] else None)"
| "lex (LNumber ph acc) (c # cs) =
     (case num_step ph c of
        Some ph' \<Rightarrow> lex (LNumber ph' (acc @ [c])) cs
      | None \<Rightarrow>
          if num_final ph then
            (case lex_start c of
               Skip \<Rightarrow> map_option (Cons (TNum acc)) (lex LStart cs)
             | Emit t \<Rightarrow> map_option (\<lambda>ts. TNum acc # t # ts) (lex LStart cs)
             | Enter st \<Rightarrow> map_option (Cons (TNum acc)) (lex st cs)
             | Reject \<Rightarrow> None)
          else None)"
| "lex (LLiteral rest t) [] = None"
| "lex (LLiteral rest t) (c # cs) =
     (case rest of
        [] \<Rightarrow> None
      | r # rs \<Rightarrow>
          if c \<noteq> r then None
          else if rs = [] then map_option (Cons t) (lex LStart cs)
          else lex (LLiteral rs t) cs)"

datatype frame =
    InArray "json list"
  | InObject "(jsstring \<times> json) list" jsstring

datatype mode =
    Value
  | ValueOrEnd
  | KeyOrEnd
  | Key "(jsstring \<times> json) list"
  | Colon "(jsstring \<times> json) list" jsstring
  | Done json

fun begin_value :: "token \<Rightarrow> frame list \<Rightarrow> (mode \<times> frame list) option" where
  "begin_value (TStr s) st = Some (Done (JString s), st)"
| "begin_value (TNum n) st = Some (Done (JNumber n), st)"
| "begin_value TTrue st = Some (Done (JBool True), st)"
| "begin_value TFalse st = Some (Done (JBool False), st)"
| "begin_value TNull st = Some (Done JNull, st)"
| "begin_value TLBracket st = Some (ValueOrEnd, st)"
| "begin_value TLBrace st = Some (KeyOrEnd, st)"
| "begin_value _ st = None"

fun pstep :: "mode \<Rightarrow> frame list \<Rightarrow> token \<Rightarrow> (mode \<times> frame list) option" where
  "pstep Value st t = begin_value t st"
| "pstep ValueOrEnd st t =
     (if t = TRBracket then Some (Done (JArray []), st)
      else begin_value t (InArray [] # st))"
| "pstep KeyOrEnd st t =
     (case t of
        TRBrace \<Rightarrow> Some (Done (JObject []), st)
      | TStr k \<Rightarrow> Some (Colon [] k, st)
      | _ \<Rightarrow> None)"
| "pstep (Key acc) st t = (case t of TStr k \<Rightarrow> Some (Colon acc k, st) | _ \<Rightarrow> None)"
| "pstep (Colon acc k) st t =
     (case t of TColon \<Rightarrow> Some (Value, InObject acc k # st) | _ \<Rightarrow> None)"
| "pstep (Done v) [] t = None"
| "pstep (Done v) (InArray acc # st) t =
     (case t of
        TComma \<Rightarrow> Some (Value, InArray (acc @ [v]) # st)
      | TRBracket \<Rightarrow> Some (Done (JArray (acc @ [v])), st)
      | _ \<Rightarrow> None)"
| "pstep (Done v) (InObject acc k # st) t =
     (case t of
        TComma \<Rightarrow> Some (Key (acc @ [(k, v)]), st)
      | TRBrace \<Rightarrow> Some (Done (JObject (acc @ [(k, v)])), st)
      | _ \<Rightarrow> None)"

fun parse :: "mode \<Rightarrow> frame list \<Rightarrow> token list \<Rightarrow> json option" where
  "parse m st [] = (case (m, st) of (Done v, []) \<Rightarrow> Some v | _ \<Rightarrow> None)"
| "parse m st (t # ts) =
     (case pstep m st t of
        None \<Rightarrow> None
      | Some (m', st') \<Rightarrow> parse m' st' ts)"

datatype exn = JSONSyntaxError | ConstructionError | HandlerError

definition JSON_parse :: "string \<Rightarrow> exn + json" where
  "JSON_parse text =
     (case lex LStart text of
        None \<Rightarrow> Inl JSONSyntaxError
      | Some ts \<Rightarrow>
          (case parse Value [] ts of
             None \<Rightarrow> Inl JSONSyntaxError
           | Some v \<Rightarrow> Inr v))"

section \<open>The wire format of \<open>types.ts\<close>\<close>

text \<open>
  \<open>WebSocketMessage\<close> is a TypeScript type: it exists at compile time only. As a
  predicate on parsed values it reads as follows (TypeScript's structural typing
  admits additional members; of duplicate members the last one is the value of the
  JavaScript object).
\<close>

definition field :: "(jsstring \<times> json) list \<Rightarrow> string \<Rightarrow> json option" where
  "field fs k = map_of (rev fs) (units k)"

definition has :: "(jsstring \<times> json) list \<Rightarrow> string \<Rightarrow> (json \<Rightarrow> bool) \<Rightarrow> bool" where
  "has fs k p = (case field fs k of None \<Rightarrow> False | Some v \<Rightarrow> p v)"

fun is_number :: "json \<Rightarrow> bool" where
  "is_number (JNumber n) = True"
| "is_number _ = False"

fun is_string :: "json \<Rightarrow> bool" where
  "is_string (JString s) = True"
| "is_string _ = False"

fun is_array_of :: "(json \<Rightarrow> bool) \<Rightarrow> json \<Rightarrow> bool" where
  "is_array_of p (JArray xs) = list_all p xs"
| "is_array_of p _ = False"

fun is_Item :: "json \<Rightarrow> bool" where
  "is_Item (JObject fs) = (has fs ''id'' is_number \<and> has fs ''name'' is_string)"
| "is_Item _ = False"

fun is_Section :: "json \<Rightarrow> bool" where
  "is_Section (JObject fs) =
     (has fs ''id'' is_number \<and> has fs ''title'' is_string
      \<and> has fs ''items'' (is_array_of is_Item))"
| "is_Section _ = False"

fun is_Position :: "json \<Rightarrow> bool" where
  "is_Position (JObject fs) = (has fs ''x'' is_number \<and> has fs ''y'' is_number)"
| "is_Position _ = False"

fun is_AppState :: "json \<Rightarrow> bool" where
  "is_AppState (JObject fs) =
     (has fs ''sections'' (is_array_of is_Section)
      \<and> has fs ''items'' (is_array_of is_Item)
      \<and> has fs ''lastUpdated'' is_number)"
| "is_AppState _ = False"

fun is_WebSocketMessage :: "json \<Rightarrow> bool" where
  "is_WebSocketMessage (JObject fs) =
     (case field fs ''type'' of
        Some (JString t) \<Rightarrow>
          if t = units ''DRAG_UPDATE'' then
            has fs ''item'' is_Item \<and> has fs ''position'' is_Position
          else if t = units ''DROP_UPDATE'' then
            has fs ''sections'' (is_array_of is_Section)
            \<and> has fs ''items'' (is_array_of is_Item)
          else if t = units ''DRAG_END'' then True
          else if t = units ''INIT_STATE'' then has fs ''state'' is_AppState
          else False
      | _ \<Rightarrow> False)"
| "is_WebSocketMessage _ = False"

definition parses_as_WebSocketMessage :: "string \<Rightarrow> bool" where
  "parses_as_WebSocketMessage text =
     (case JSON_parse text of Inl e \<Rightarrow> False | Inr v \<Rightarrow> is_WebSocketMessage v)"

section \<open>The connection manager of \<open>useWebSocket.ts\<close>\<close>

text \<open>
  The hook's mutable cells (\<open>isConnected\<close> and the five refs) are fields of one
  record, together with what the platform holds for it: the sockets constructed so
  far (a socket is its index, the entry its \<open>readyState\<close>), the pending timeouts
  (handle and delay in milliseconds) and the trace of observable effects, oldest
  first. A caller-supplied handler is a number; that it has been called is an effect.
  Timeout handles are positive, as the platform's are, so a stored handle is truthy.
\<close>

datatype readyState = CONNECTING | OPEN | CLOSING | CLOSED

datatype effect =
    ConsoleLog string
  | ConsoleWarn string
  | ConsoleError string
  | Constructed nat
  | CloseCalled nat nat string
  | Sent nat json
  | TimeoutSet nat nat
  | TimeoutCleared nat
  | MessageHandlerCalled nat json
  | ErrorHandlerCalled nat

record manager =
  isConnected :: bool
  wsRef :: "nat option"
  reconnectTimeoutRef :: "nat option"
  reconnectAttemptsRef :: nat
  messageHandlerRef :: nat
  errorHandlerRef :: "nat option"
  sockets :: "readyState list"
  timers :: "(nat \<times> nat) list"
  nextTimer :: nat
  trace :: "effect list"

text \<open>
  What the hook cannot decide: whether \<open>new WebSocket(url)\<close> succeeds for the
  configured url, and whether a caller's message handler throws on a value.
\<close>

record platform =
  constructs :: bool
  handlerThrows :: "nat \<Rightarrow> json \<Rightarrow> bool"

definition maxReconnectAttempts :: nat where
  "maxReconnectAttempts = 5"

definition initial :: "nat \<Rightarrow> nat option \<Rightarrow> manager" where
  "initial onMessage onError =
     \<lparr>isConnected = False, wsRef = None, reconnectTimeoutRef = None,
      reconnectAttemptsRef = 0, messageHandlerRef = onMessage,
      errorHandlerRef = onError, sockets = [], timers = [], nextTimer = 1,
      trace = []\<rparr>"

definition emit :: "effect \<Rightarrow> manager \<Rightarrow> manager" where
  "emit e s = s\<lparr>trace := trace s @ [e]\<rparr>"

definition readyState_of :: "manager \<Rightarrow> nat \<Rightarrow> readyState option" where
  "readyState_of s w = (if w < length (sockets s) then Some (sockets s ! w) else None)"

definition current_readyState :: "manager \<Rightarrow> readyState option" where
  "current_readyState s = (case wsRef s of None \<Rightarrow> None | Some w \<Rightarrow> readyState_of s w)"

definition clearTimeout :: "nat \<Rightarrow> manager \<Rightarrow> manager" where
  "clearTimeout t s =
     emit (TimeoutCleared t) (s\<lparr>timers := filter (\<lambda>p. fst p \<noteq> t) (timers s)\<rparr>)"

definition setTimeout :: "nat \<Rightarrow> manager \<Rightarrow> nat \<times> manager" where
  "setTimeout delay s =
     (nextTimer s,
      emit (TimeoutSet (nextTimer s) delay)
        (s\<lparr>timers := timers s @ [(nextTimer s, delay)], nextTimer := Suc (nextTimer s)\<rparr>))"

definition ws_close :: "nat \<Rightarrow> nat \<Rightarrow> string \<Rightarrow> manager \<Rightarrow> manager" where
  "ws_close w code reason s =
     emit (CloseCalled w code reason)
       (if readyState_of s w = Some CONNECTING \<or> readyState_of s w = Some OPEN
        then s\<lparr>sockets := (sockets s)[w := CLOSING]\<rparr> else s)"

definition new_WebSocket :: "platform \<Rightarrow> manager \<Rightarrow> exn + (nat \<times> manager)" where
  "new_WebSocket P s =
     (if constructs P
      then Inr (length (sockets s),
                emit (Constructed (length (sockets s)))
                  (s\<lparr>sockets := sockets s @ [CONNECTING]\<rparr>))
      else Inl ConstructionError)"

definition cleanup :: "manager \<Rightarrow> manager" where
  "cleanup s =
     (let s1 = (case reconnectTimeoutRef s of
                  None \<Rightarrow> s
                | Some t \<Rightarrow> (clearTimeout t s)\<lparr>reconnectTimeoutRef := None\<rparr>)
      in case wsRef s1 of
           None \<Rightarrow> s1
         | Some w \<Rightarrow> (ws_close w 1000 ''Component unmounting'' s1)\<lparr>wsRef := None\<rparr>)"

text \<open>
  The body of the \<open>try\<close> in \<open>connect\<close>. Assigning the four reactions to the new
  socket has no counterpart in the record: every socket of \<open>sockets\<close> was constructed
  here, so the events of each of them run \<open>ws_onopen\<close>, \<open>ws_onmessage\<close>, \<open>ws_onerror\<close>
  and \<open>ws_onclose\<close> below, which read the refs and not the socket.
\<close>

definition connect_try :: "platform \<Rightarrow> manager \<Rightarrow> exn + manager" where
  "connect_try P s =
     (case new_WebSocket P s of
        Inl e \<Rightarrow> Inl e
      | Inr (w, s1) \<Rightarrow> Inr (s1\<lparr>wsRef := Some w\<rparr>))"

definition connect :: "platform \<Rightarrow> manager \<Rightarrow> manager" where
  "connect P s =
     (if current_readyState s = Some OPEN \<or> current_readyState s = Some CONNECTING
      then s
      else if reconnectAttemptsRef s \<ge> maxReconnectAttempts
      then emit (ConsoleLog ''Max reconnection attempts reached'') s
      else case connect_try P s of
             Inl e \<Rightarrow> emit (ConsoleError ''WebSocket Connection Error:'') s
           | Inr s' \<Rightarrow> s')"

definition ws_onopen :: "manager \<Rightarrow> manager" where
  "ws_onopen s =
     (emit (ConsoleLog ''WebSocket Connected'') s)
       \<lparr>isConnected := True, reconnectAttemptsRef := 0\<rparr>"

definition ws_onmessage :: "platform \<Rightarrow> string \<Rightarrow> manager \<Rightarrow> manager" where
  "ws_onmessage P data s =
     (case JSON_parse data of
        Inl e \<Rightarrow> emit (ConsoleError ''Failed to parse message:'') s
      | Inr v \<Rightarrow>
          (let s1 = emit (MessageHandlerCalled (messageHandlerRef s) v) s
           in if handlerThrows P (messageHandlerRef s) v
              then emit (ConsoleError ''Failed to parse message:'') s1
              else s1))"

definition ws_onerror :: "manager \<Rightarrow> manager" where
  "ws_onerror s =
     (let s1 = emit (ConsoleError ''WebSocket Error:'') s
      in case errorHandlerRef s1 of
           None \<Rightarrow> s1
         | Some h \<Rightarrow> emit (ErrorHandlerCalled h) s1)"

definition timeout :: "nat \<Rightarrow> nat" where
  "timeout attempts = min (1000 * 2 ^ attempts) 10000"

definition ws_onclose :: "nat \<Rightarrow> manager \<Rightarrow> manager" where
  "ws_onclose code s =
     (if code \<noteq> 1000 then
        (let s1 = (emit (ConsoleLog ''WebSocket Closed unexpectedly:'') s)
                    \<lparr>isConnected := False, wsRef := None\<rparr>;
             (t, s2) = setTimeout (timeout (reconnectAttemptsRef s1)) s1
         in s2\<lparr>reconnectTimeoutRef := Some t\<rparr>)
      else
        (emit (ConsoleLog ''WebSocket Closed normally:'') s)
          \<lparr>isConnected := False, wsRef := None\<rparr>)"

text \<open>The callback that \<open>ws.onclose\<close> hands to \<open>setTimeout\<close>.\<close>

definition retry :: "platform \<Rightarrow> manager \<Rightarrow> manager" where
  "retry P s = connect P (s\<lparr>reconnectAttemptsRef := reconnectAttemptsRef s + 1\<rparr>)"

definition sendMessage :: "json \<Rightarrow> manager \<Rightarrow> manager" where
  "sendMessage message s =
     (case wsRef s of
        Some w \<Rightarrow>
          if readyState_of s w = Some OPEN then emit (Sent w message) s
          else emit (ConsoleWarn ''WebSocket is not connected'') s
      | None \<Rightarrow> emit (ConsoleWarn ''WebSocket is not connected'') s)"

definition reconnect :: "platform \<Rightarrow> manager \<Rightarrow> manager" where
  "reconnect P s = connect P ((cleanup s)\<lparr>reconnectAttemptsRef := 0\<rparr>)"

text \<open>The effect that stores the handlers of the latest render in their refs.\<close>

definition setHandlers :: "nat \<Rightarrow> nat option \<Rightarrow> manager \<Rightarrow> manager" where
  "setHandlers onMessage onError s =
     s\<lparr>messageHandlerRef := onMessage, errorHandlerRef := onError\<rparr>"

subsection \<open>The event loop\<close>

text \<open>
  Everything that runs code of the hook while its component is mounted, one at a
  time: the caller, the transport and the timer. \<open>Mount\<close> is the body of the effect
  of lines 111 to 116, a call of \<open>connect\<close>. \<open>Cleanup\<close> is the cleanup of that effect
  run with the component still mounted, as React does before it runs the effect
  again (a changed dependency, the double invocation of development builds); it is
  a call of \<open>cleanup\<close>. The transport delivers \<open>open\<close> to a connecting socket,
  \<open>message\<close> to an open one, and \<open>close\<close> once, to a socket that is not closed yet;
  it changes the \<open>readyState\<close> before the reaction runs. A timeout fires only while
  it is pending. An event that the platform cannot deliver leaves the state as it
  is.

  The unmount of the component is not an event: it ends a run. It calls \<open>cleanup\<close>
  as \<open>Cleanup\<close> does, but from then on React ignores \<open>setIsConnected\<close> and the hook
  exposes no flag any more, so \<open>isConnected\<close> is the flag of a mounted hook and no
  state here stands for an unmounted one.
\<close>

datatype event =
    Mount
  | Cleanup
  | Reconnect
  | Send json
  | Render nat "nat option"
  | Opened nat
  | Received nat string
  | Errored nat
  | Closed nat nat
  | TimerFired nat

definition deliverable :: "manager \<Rightarrow> event \<Rightarrow> bool" where
  "deliverable s e =
     (case e of
        Opened w \<Rightarrow> readyState_of s w = Some CONNECTING
      | Received w d \<Rightarrow> readyState_of s w = Some OPEN
      | Errored w \<Rightarrow> readyState_of s w \<noteq> None \<and> readyState_of s w \<noteq> Some CLOSED
      | Closed w c \<Rightarrow> readyState_of s w \<noteq> None \<and> readyState_of s w \<noteq> Some CLOSED
      | TimerFired t \<Rightarrow> t \<in> fst ` set (timers s)
      | _ \<Rightarrow> True)"

definition react :: "platform \<Rightarrow> event \<Rightarrow> manager \<Rightarrow> manager" where
  "react P e s =
     (case e of
        Mount \<Rightarrow> connect P s
      | Cleanup \<Rightarrow> cleanup s
      | Reconnect \<Rightarrow> reconnect P s
      | Send m \<Rightarrow> sendMessage m s
      | Render h eh \<Rightarrow> setHandlers h eh s
      | Opened w \<Rightarrow> ws_onopen (s\<lparr>sockets := (sockets s)[w := OPEN]\<rparr>)
      | Received w d \<Rightarrow> ws_onmessage P d s
      | Errored w \<Rightarrow> ws_onerror s
      | Closed w c \<Rightarrow> ws_onclose c (s\<lparr>sockets := (sockets s)[w := CLOSED]\<rparr>)
      | TimerFired t \<Rightarrow> retry P (s\<lparr>timers := filter (\<lambda>p. fst p \<noteq> t) (timers s)\<rparr>))"

definition step :: "platform \<Rightarrow> event \<Rightarrow> manager \<Rightarrow> manager" where
  "step P e s = (if deliverable s e then react P e s else s)"

fun run :: "platform \<Rightarrow> event list \<Rightarrow> manager \<Rightarrow> manager" where
  "run P [] s = s"
| "run P (e # es) s = run P es (step P e s)"

subsection \<open>Reading a trace, and the scenarios of the specification\<close>

fun handler_calls :: "effect list \<Rightarrow> (nat \<times> json) list" where
  "handler_calls [] = []"
| "handler_calls (MessageHandlerCalled h v # es) = (h, v) # handler_calls es"
| "handler_calls (e # es) = handler_calls es"

fun scheduled_delays :: "effect list \<Rightarrow> nat list" where
  "scheduled_delays [] = []"
| "scheduled_delays (TimeoutSet t d # es) = d # scheduled_delays es"
| "scheduled_delays (e # es) = scheduled_delays es"

fun constructed :: "effect list \<Rightarrow> nat list" where
  "constructed [] = []"
| "constructed (Constructed w # es) = w # constructed es"
| "constructed (e # es) = constructed es"

text \<open>The sockets that are open or opening, referenced by \<open>wsRef\<close> or not.\<close>

definition live :: "manager \<Rightarrow> nat list" where
  "live s = filter (\<lambda>w. sockets s ! w = OPEN \<or> sockets s ! w = CONNECTING) [0..<length (sockets s)]"

text \<open>
  One abnormal closure of the specification's retry scenario: the transport closes
  the socket that \<open>wsRef\<close> holds with the given code, and the timeout that the close
  reaction has stored in \<open>reconnectTimeoutRef\<close> fires. A sequence of consecutive
  closures repeats this, one close code each.
\<close>

definition abnormal_closure :: "platform \<Rightarrow> nat \<Rightarrow> manager \<Rightarrow> manager" where
  "abnormal_closure P code s =
     (case wsRef s of
        None \<Rightarrow> s
      | Some w \<Rightarrow>
          (let s1 = step P (Closed w code) s
           in case reconnectTimeoutRef s1 of
                None \<Rightarrow> s1
              | Some t \<Rightarrow> step P (TimerFired t) s1))"

fun closures :: "platform \<Rightarrow> nat list \<Rightarrow> manager \<Rightarrow> manager" where
  "closures P [] s = s"
| "closures P (c # cs) s = closures P cs (abnormal_closure P c s)"

text \<open>The events that the specification names as resetting the attempt counter.\<close>

fun resets :: "event \<Rightarrow> bool" where
  "resets (Opened w) = True"
| "resets Reconnect = True"
| "resets _ = False"

fun fires :: "event \<Rightarrow> bool" where
  "fires (TimerFired t) = True"
| "fires _ = False"

text \<open>A platform on which construction succeeds and no handler throws.\<close>

definition obliging :: platform where
  "obliging = \<lparr>constructs = True, handlerThrows = (\<lambda>h v. False)\<rparr>"

text \<open>A platform that refuses the url.\<close>

definition refusing :: platform where
  "refusing = \<lparr>constructs = False, handlerThrows = (\<lambda>h v. False)\<rparr>"

text \<open>
  The state in which the retry budget is spent: mounted, then five abnormal closures,
  each followed by its timeout.
\<close>

definition exhausted :: manager where
  "exhausted = run obliging
     [Mount, Closed 0 1006, TimerFired 1, Closed 1 1006, TimerFired 2, Closed 2 1006,
      TimerFired 3, Closed 3 1006, TimerFired 4, Closed 4 1006, TimerFired 5] (initial 0 None)"

section \<open>Unfolding the operations\<close>

lemmas operations =
  connect_def connect_try_def new_WebSocket_def emit_def current_readyState_def
  readyState_of_def maxReconnectAttempts_def cleanup_def clearTimeout_def
  setTimeout_def ws_close_def ws_onopen_def ws_onclose_def ws_onerror_def
  ws_onmessage_def retry_def reconnect_def setHandlers_def sendMessage_def timeout_def

lemmas events = step_def react_def deliverable_def

lemmas scenario = initial_def obliging_def

lemma handler_calls_append:
  "handler_calls (xs @ ys) = handler_calls xs @ handler_calls ys"
  by (induction xs rule: handler_calls.induct) simp_all

lemma scheduled_delays_append:
  "scheduled_delays (xs @ ys) = scheduled_delays xs @ scheduled_delays ys"
  by (induction xs rule: scheduled_delays.induct) simp_all

lemma constructed_append:
  "constructed (xs @ ys) = constructed xs @ constructed ys"
  by (induction xs rule: constructed.induct) simp_all

section \<open>Frame lemmas\<close>

lemma ws_onclose_timers:
  "timers (ws_onclose c s) = (if c = 1000 then timers s else timers s @ [(nextTimer s, timeout (reconnectAttemptsRef s))])"
  by (simp add: ws_onclose_def setTimeout_def emit_def)

lemma connect_timers: "timers (connect P s) = timers s"
  by (simp add: connect_def connect_try_def new_WebSocket_def emit_def split: sum.splits prod.splits)

lemma filter_not_longer: "\<not> length xs < length (filter p xs)"
  by (simp add: not_less)

lemma step_schedules_only_on_abnormal_close:
  assumes "length (timers s) < length (timers (step P e s))"
  shows "\<exists>w c. e = Closed w c \<and> c \<noteq> 1000"
proof (cases e)
  case (Closed w c)
  then show ?thesis using assms
    by (auto simp: events ws_onclose_timers split: if_splits)
next
  case (TimerFired t)
  with assms show ?thesis
    by (simp add: events retry_def connect_timers filter_not_longer split: if_splits)
next
  case Mount
  with assms show ?thesis by (simp add: events connect_timers)
next
  case Cleanup
  with assms show ?thesis
    by (auto simp: events cleanup_def clearTimeout_def ws_close_def emit_def Let_def filter_not_longer split: option.splits if_splits)
next
  case Reconnect
  with assms show ?thesis
    by (auto simp: events reconnect_def connect_timers cleanup_def clearTimeout_def ws_close_def emit_def Let_def filter_not_longer split: option.splits if_splits)
next
  case (Send m)
  with assms show ?thesis by (simp add: events sendMessage_def emit_def split: option.splits if_splits)
next
  case (Render h eh)
  with assms show ?thesis by (simp add: events setHandlers_def)
next
  case (Opened w)
  with assms show ?thesis by (simp add: events ws_onopen_def emit_def split: if_splits)
next
  case (Received w d)
  with assms show ?thesis by (simp add: events ws_onmessage_def emit_def Let_def split: if_splits sum.splits)
next
  case (Errored w)
  with assms show ?thesis by (simp add: events ws_onerror_def emit_def Let_def split: if_splits option.splits)
qed

lemma connect_isConnected: "isConnected (connect P s) = isConnected s"
  by (simp add: connect_def connect_try_def new_WebSocket_def emit_def split: sum.splits prod.splits)

lemma cleanup_isConnected: "isConnected (cleanup s) = isConnected s"
  by (simp add: cleanup_def clearTimeout_def ws_close_def emit_def Let_def split: option.splits)

lemma flag_written_only_by_open_and_close:
  assumes "isConnected (step P e s) \<noteq> isConnected s"
  shows "(\<exists>w. e = Opened w) \<or> (\<exists>w c. e = Closed w c)"
  using assms
  by (cases e)
     (simp_all add: events connect_isConnected cleanup_isConnected reconnect_def retry_def
        sendMessage_def setHandlers_def ws_onmessage_def ws_onerror_def emit_def Let_def
        split: if_splits option.splits sum.splits)

lemma reconnect_isConnected: "isConnected (reconnect P s) = isConnected s"
  by (simp add: reconnect_def connect_isConnected cleanup_isConnected)

lemma cleanup_frame:
  "cleanup s = s
     \<lparr>timers := (case reconnectTimeoutRef s of
                   None \<Rightarrow> timers s
                 | Some t \<Rightarrow> filter (\<lambda>p. fst p \<noteq> t) (timers s)),
      reconnectTimeoutRef := None,
      sockets := (case wsRef s of
                    None \<Rightarrow> sockets s
                  | Some w \<Rightarrow>
                      if readyState_of s w = Some CONNECTING \<or> readyState_of s w = Some OPEN
                      then (sockets s)[w := CLOSING] else sockets s),
      wsRef := None,
      trace := trace s
        @ (case reconnectTimeoutRef s of None \<Rightarrow> [] | Some t \<Rightarrow> [TimeoutCleared t])
        @ (case wsRef s of None \<Rightarrow> [] | Some w \<Rightarrow> [CloseCalled w 1000 ''Component unmounting''])\<rparr>"
  by (simp add: cleanup_def clearTimeout_def ws_close_def emit_def Let_def readyState_of_def
        split: option.splits)

lemma ws_onmessage_calls:
  "handler_calls (trace (ws_onmessage P d s)) =
     handler_calls (trace s) @ (case JSON_parse d of Inl e \<Rightarrow> [] | Inr v \<Rightarrow> [(messageHandlerRef s, v)])"
  by (simp add: ws_onmessage_def emit_def Let_def handler_calls_append split: sum.splits)

lemma ws_onmessage_frame:
  "isConnected (ws_onmessage P d s) = isConnected s
   \<and> sockets (ws_onmessage P d s) = sockets s
   \<and> wsRef (ws_onmessage P d s) = wsRef s
   \<and> timers (ws_onmessage P d s) = timers s
   \<and> reconnectAttemptsRef (ws_onmessage P d s) = reconnectAttemptsRef s
   \<and> reconnectTimeoutRef (ws_onmessage P d s) = reconnectTimeoutRef s
   \<and> messageHandlerRef (ws_onmessage P d s) = messageHandlerRef s"
  by (simp add: ws_onmessage_def emit_def Let_def split: sum.splits)

lemma step_Render:
  "step P (Render h e) s = s\<lparr>messageHandlerRef := h, errorHandlerRef := e\<rparr>"
  by (simp add: events setHandlers_def)

lemma step_Received:
  "readyState_of s w = Some OPEN \<Longrightarrow> step P (Received w d) s = ws_onmessage P d s"
  by (simp add: events)

lemma readyState_of_ws_onmessage:
  "readyState_of (ws_onmessage P d s) w = readyState_of s w"
  by (simp add: readyState_of_def ws_onmessage_frame)

lemma readyState_of_handlers:
  "readyState_of (s\<lparr>messageHandlerRef := h, errorHandlerRef := e\<rparr>) w = readyState_of s w"
  by (simp add: readyState_of_def)

lemma two_deliveries:
  assumes "readyState_of s w = Some OPEN"
    and "JSON_parse d1 = Inr v1" and "JSON_parse d2 = Inr v2"
  shows "handler_calls (trace (run P [Received w d1, Render h2 e2, Received w d2] s))
           = handler_calls (trace s) @ [(messageHandlerRef s, v1), (h2, v2)]"
  using assms
  by (simp add: step_Render step_Received readyState_of_ws_onmessage readyState_of_handlers
        ws_onmessage_calls ws_onmessage_frame)

lemma mounted_opened_rendered:
  "constructs P \<Longrightarrow> run P [Mount, Opened 0, Render h1 e1] (initial h0 e0)
     = \<lparr>isConnected = True, wsRef = Some 0, reconnectTimeoutRef = None,
        reconnectAttemptsRef = 0, messageHandlerRef = h1, errorHandlerRef = e1,
        sockets = [OPEN], timers = [], nextTimer = 1,
        trace = [Constructed 0, ConsoleLog ''WebSocket Connected'']\<rparr>"
  by (simp add: operations events initial_def)

lemma registered_handler_not_called:
  assumes c: "constructs P"
    and "JSON_parse d1 = Inr v1" and "JSON_parse d2 = Inr v2"
  shows "handler_calls (trace (run P
          [Mount, Opened 0, Render h1 e1, Received 0 d1, Render h2 e2, Received 0 d2]
          (initial h0 e0))) = [(h1, v1), (h2, v2)]"
proof -
  let ?s = "run P [Mount, Opened 0, Render h1 e1] (initial h0 e0)"
  have 1: "readyState_of ?s 0 = Some OPEN"
    by (simp only: mounted_opened_rendered [OF c]) (simp add: readyState_of_def)
  have 2: "handler_calls (trace ?s) = []" and 3: "messageHandlerRef ?s = h1"
    by (simp_all only: mounted_opened_rendered [OF c]) simp_all
  have "run P [Mount, Opened 0, Render h1 e1, Received 0 d1, Render h2 e2, Received 0 d2]
          (initial h0 e0) = run P [Received 0 d1, Render h2 e2, Received 0 d2] ?s"
    by simp
  with two_deliveries [OF 1 assms(2,3), of P h2 e2] 2 3 show ?thesis by simp
qed

lemma connect_attempts: "reconnectAttemptsRef (connect P s) = reconnectAttemptsRef s"
  by (simp add: connect_def connect_try_def new_WebSocket_def emit_def split: sum.splits prod.splits)

lemma cleanup_attempts: "reconnectAttemptsRef (cleanup s) = reconnectAttemptsRef s"
  by (simp add: cleanup_def clearTimeout_def ws_close_def emit_def Let_def split: option.splits)

lemma step_attempts:
  "reconnectAttemptsRef (step P e s) =
     (if deliverable s e \<and> resets e then 0
      else if deliverable s e \<and> fires e then reconnectAttemptsRef s + 1
      else reconnectAttemptsRef s)"
  by (cases e)
     (simp_all add: step_def react_def connect_attempts cleanup_attempts reconnect_def retry_def
        sendMessage_def setHandlers_def ws_onmessage_frame ws_onerror_def ws_onopen_def
        ws_onclose_def setTimeout_def emit_def Let_def deliverable_def
        split: option.splits prod.splits)

lemma run_attempts_monotone:
  "\<forall>e\<in>set es. \<not> resets e \<Longrightarrow> reconnectAttemptsRef s \<le> reconnectAttemptsRef (run P es s)"
proof (induction es arbitrary: s)
  case Nil
  then show ?case by simp
next
  case (Cons e es)
  have "reconnectAttemptsRef s \<le> reconnectAttemptsRef (step P e s)"
    using Cons.prems by (simp add: step_attempts)
  also have "\<dots> \<le> reconnectAttemptsRef (run P es (step P e s))"
    using Cons.prems by (intro Cons.IH) simp
  finally show ?case by simp
qed

lemma connect_at_cap:
  "maxReconnectAttempts \<le> reconnectAttemptsRef s \<Longrightarrow>
     sockets (connect P s) = sockets s \<and> wsRef (connect P s) = wsRef s
     \<and> constructed (trace (connect P s)) = constructed (trace s)"
  by (simp add: connect_def emit_def constructed_append)

lemma exhausted_state:
  "exhausted = \<lparr>isConnected = False, wsRef = None, reconnectTimeoutRef = Some 5,
    reconnectAttemptsRef = 5, messageHandlerRef = 0, errorHandlerRef = None,
    sockets = [CLOSED, CLOSED, CLOSED, CLOSED, CLOSED], timers = [],
    nextTimer = 6,
    trace =
      [Constructed 0, ConsoleLog ''WebSocket Closed unexpectedly:'',
       TimeoutSet 1 1000, Constructed 1,
       ConsoleLog ''WebSocket Closed unexpectedly:'', TimeoutSet 2 2000,
       Constructed 2, ConsoleLog ''WebSocket Closed unexpectedly:'',
       TimeoutSet 3 4000, Constructed 3,
       ConsoleLog ''WebSocket Closed unexpectedly:'', TimeoutSet 4 8000,
       Constructed 4, ConsoleLog ''WebSocket Closed unexpectedly:'',
       TimeoutSet 5 10000,
       ConsoleLog ''Max reconnection attempts reached'']\<rparr>"
  by (simp add: exhausted_def operations events scenario)

section \<open>The retry scenario\<close>

lemma abnormal_closure_effect:
  assumes "constructs P" and "wsRef s = Some w" and "readyState_of s w = Some r"
    and "r \<noteq> CLOSED" and "c \<noteq> 1000"
  shows "reconnectAttemptsRef (abnormal_closure P c s) = Suc (reconnectAttemptsRef s)"
    and "scheduled_delays (trace (abnormal_closure P c s))
           = scheduled_delays (trace s) @ [timeout (reconnectAttemptsRef s)]"
    and "Suc (reconnectAttemptsRef s) < 5 \<Longrightarrow>
           wsRef (abnormal_closure P c s) = Some (length (sockets s))
           \<and> readyState_of (abnormal_closure P c s) (length (sockets s)) = Some CONNECTING
           \<and> constructed (trace (abnormal_closure P c s))
               = constructed (trace s) @ [length (sockets s)]"
    and "5 \<le> Suc (reconnectAttemptsRef s) \<Longrightarrow>
           wsRef (abnormal_closure P c s) = None
           \<and> constructed (trace (abnormal_closure P c s)) = constructed (trace s)"
    and "sockets (abnormal_closure P c s)
           = (sockets s)[w := CLOSED]
             @ (if Suc (reconnectAttemptsRef s) < 5 then [CONNECTING] else [])"
    and "timers (abnormal_closure P c s)
           = filter (\<lambda>p. fst p \<noteq> nextTimer s) (timers s)"
  using assms
  by (simp_all add: abnormal_closure_def events operations Let_def
        scheduled_delays_append constructed_append nth_append split: if_splits)

lemma closures_without_socket: "wsRef s = None \<Longrightarrow> closures P cs s = s"
  by (induction cs) (simp_all add: abnormal_closure_def)

lemma closures_schedule:
  assumes "constructs P"
  shows "\<lbrakk>\<forall>c\<in>set cs. c \<noteq> 1000; wsRef s = Some w; readyState_of s w = Some r; r \<noteq> CLOSED;
          reconnectAttemptsRef s = k; k < 5\<rbrakk> \<Longrightarrow>
     scheduled_delays (trace (closures P cs s))
       = scheduled_delays (trace s) @ take (length cs) (map timeout [k..<5])
     \<and> reconnectAttemptsRef (closures P cs s) = min (k + length cs) 5
     \<and> length (constructed (trace (closures P cs s)))
         = length (constructed (trace s)) + (min (k + length cs) 4 - k)
     \<and> (5 \<le> k + length cs \<longrightarrow> wsRef (closures P cs s) = None)"
proof (induction cs arbitrary: s w r k)
  case Nil
  then show ?case by simp
next
  case (Cons c cs)
  let ?s = "abnormal_closure P c s"
  have c: "c \<noteq> 1000" and cs: "\<forall>c\<in>set cs. c \<noteq> 1000" using Cons.prems(1) by simp_all
  note eff = abnormal_closure_effect [OF assms Cons.prems(2) Cons.prems(3) Cons.prems(4) c]
  have att: "reconnectAttemptsRef ?s = Suc k" using eff(1) Cons.prems(5) by simp
  have del: "scheduled_delays (trace ?s) = scheduled_delays (trace s) @ [timeout k]"
    using eff(2) Cons.prems(5) by simp
  have u: "[k..<5] = k # [Suc k..<5]"
    using Cons.prems(6) by (simp add: upt_conv_Cons)
  have step: "closures P (c # cs) s = closures P cs ?s" by simp
  show ?case
  proof (cases "Suc k < 5")
    case True
    from eff(3) True Cons.prems(5)
    have w: "wsRef ?s = Some (length (sockets s))"
      and r: "readyState_of ?s (length (sockets s)) = Some CONNECTING"
      and con: "constructed (trace ?s) = constructed (trace s) @ [length (sockets s)]"
      by simp_all
    have ih: "scheduled_delays (trace (closures P cs ?s))
       = scheduled_delays (trace ?s) @ take (length cs) (map timeout [Suc k..<5])
     \<and> reconnectAttemptsRef (closures P cs ?s) = min (Suc k + length cs) 5
     \<and> length (constructed (trace (closures P cs ?s)))
         = length (constructed (trace ?s)) + (min (Suc k + length cs) 4 - Suc k)
     \<and> (5 \<le> Suc k + length cs \<longrightarrow> wsRef (closures P cs ?s) = None)"
      by (rule Cons.IH [OF cs w r _ att True]) simp
    have 1: "scheduled_delays (trace (closures P (c # cs) s))
       = scheduled_delays (trace s) @ take (length (c # cs)) (map timeout [k..<5])"
      using ih by (simp only: step del u) simp
    have 2: "reconnectAttemptsRef (closures P (c # cs) s) = min (k + length (c # cs)) 5"
      using ih by (simp only: step) simp
    have l: "length (constructed (trace (closures P cs ?s)))
         = length (constructed (trace ?s)) + (min (Suc k + length cs) 4 - Suc k)"
      using ih by blast
    have n: "length (constructed (trace ?s)) = Suc (length (constructed (trace s)))"
      by (simp add: con)
    have "Suc (length (constructed (trace s))) + (min (Suc k + length cs) 4 - Suc k)
         = length (constructed (trace s)) + (min (k + Suc (length cs)) 4 - k)"
      using True by arith
    then have 3: "length (constructed (trace (closures P (c # cs) s)))
         = length (constructed (trace s)) + (min (k + length (c # cs)) 4 - k)"
      by (simp only: step l n list.size)
    have 4: "5 \<le> k + length (c # cs) \<longrightarrow> wsRef (closures P (c # cs) s) = None"
      using ih by (simp only: step) simp
    from 1 2 3 4 show ?thesis by blast
  next
    case False
    with Cons.prems(6) have k: "k = 4" by simp
    from eff(4) k Cons.prems(5) have w: "wsRef ?s = None"
      and con: "constructed (trace ?s) = constructed (trace s)" by simp_all
    have e: "closures P (c # cs) s = ?s" by (simp add: closures_without_socket [OF w])
    have 1: "scheduled_delays (trace (closures P (c # cs) s))
       = scheduled_delays (trace s) @ take (length (c # cs)) (map timeout [k..<5])"
      by (simp only: e del u) (simp add: k)
    have 2: "reconnectAttemptsRef (closures P (c # cs) s) = min (k + length (c # cs)) 5"
      by (simp only: e att) (simp add: k)
    have 3: "length (constructed (trace (closures P (c # cs) s)))
         = length (constructed (trace s)) + (min (k + length (c # cs)) 4 - k)"
      by (simp only: e con) (simp add: k)
    have 4: "5 \<le> k + length (c # cs) \<longrightarrow> wsRef (closures P (c # cs) s) = None"
      by (simp only: e w) simp
    from 1 2 3 4 show ?thesis by blast
  qed
qed

lemma closures_leave_nothing:
  assumes "constructs P"
  shows "\<lbrakk>\<forall>c\<in>set cs. c \<noteq> 1000; wsRef s = Some w; readyState_of s w = Some r; r \<noteq> CLOSED;
          reconnectAttemptsRef s = k; k < 5\<rbrakk> \<Longrightarrow>
     length (sockets s) \<le> length (sockets (closures P cs s))
     \<and> (\<forall>i<length (sockets s). i \<noteq> w \<longrightarrow> sockets (closures P cs s) ! i = sockets s ! i)
     \<and> (5 \<le> k + length cs \<longrightarrow>
          (\<forall>i<length (sockets (closures P cs s)).
             i = w \<or> length (sockets s) \<le> i \<longrightarrow> sockets (closures P cs s) ! i = CLOSED))
     \<and> set (timers (closures P cs s)) \<subseteq> set (timers s)"
proof (induction cs arbitrary: s w r k)
  case Nil
  then show ?case by simp
next
  case (Cons c cs)
  let ?s = "abnormal_closure P c s"
  have c: "c \<noteq> 1000" and cs: "\<forall>c\<in>set cs. c \<noteq> 1000" using Cons.prems(1) by simp_all
  note eff = abnormal_closure_effect [OF assms Cons.prems(2) Cons.prems(3) Cons.prems(4) c]
  have att: "reconnectAttemptsRef ?s = Suc k" using eff(1) Cons.prems(5) by simp
  have wl: "w < length (sockets s)"
    using Cons.prems(3) by (simp add: readyState_of_def split: if_splits)
  have tm: "set (timers ?s) \<subseteq> set (timers s)" by (auto simp: eff(6))
  have step: "closures P (c # cs) s = closures P cs ?s" by simp
  show ?case
  proof (cases "Suc k < 5")
    case True
    from eff(3) True Cons.prems(5)
    have w: "wsRef ?s = Some (length (sockets s))"
      and r: "readyState_of ?s (length (sockets s)) = Some CONNECTING"
      by simp_all
    have so: "sockets ?s = (sockets s)[w := CLOSED] @ [CONNECTING]"
      using eff(5) True Cons.prems(5) by simp
    have ih: "length (sockets ?s) \<le> length (sockets (closures P cs ?s))
     \<and> (\<forall>i<length (sockets ?s). i \<noteq> length (sockets s)
            \<longrightarrow> sockets (closures P cs ?s) ! i = sockets ?s ! i)
     \<and> (5 \<le> Suc k + length cs \<longrightarrow>
          (\<forall>i<length (sockets (closures P cs ?s)).
             i = length (sockets s) \<or> length (sockets ?s) \<le> i
               \<longrightarrow> sockets (closures P cs ?s) ! i = CLOSED))
     \<and> set (timers (closures P cs ?s)) \<subseteq> set (timers ?s)"
      by (rule Cons.IH [OF cs w r _ att True]) simp
    have ls: "length (sockets ?s) = Suc (length (sockets s))" by (simp add: so)
    have old: "sockets ?s ! i = (if i = w then CLOSED else sockets s ! i)"
      if "i < length (sockets s)" for i
      using that by (simp add: so nth_append nth_list_update)
    have 1: "length (sockets s) \<le> length (sockets (closures P (c # cs) s))"
      using ih ls by (simp only: step) simp
    have 2: "\<forall>i<length (sockets s). i \<noteq> w
               \<longrightarrow> sockets (closures P (c # cs) s) ! i = sockets s ! i"
      using ih ls old by (simp only: step) auto
    have 3: "5 \<le> k + length (c # cs) \<longrightarrow>
          (\<forall>i<length (sockets (closures P (c # cs) s)).
             i = w \<or> length (sockets s) \<le> i
               \<longrightarrow> sockets (closures P (c # cs) s) ! i = CLOSED)"
    proof (intro impI allI)
      fix i
      assume five: "5 \<le> k + length (c # cs)"
        and i: "i < length (sockets (closures P (c # cs) s))"
        and or: "i = w \<or> length (sockets s) \<le> i"
      from five have five': "5 \<le> Suc k + length cs" by simp
      from i have i': "i < length (sockets (closures P cs ?s))" by (simp only: step)
      show "sockets (closures P (c # cs) s) ! i = CLOSED"
      proof (cases "i = w")
        case True
        then have "sockets (closures P cs ?s) ! i = sockets ?s ! i"
          using ih wl ls by auto
        also have "\<dots> = CLOSED" using True wl old by simp
        finally show ?thesis by (simp only: step)
      next
        case False
        with or have "length (sockets s) \<le> i" by simp
        then have "i = length (sockets s) \<or> length (sockets ?s) \<le> i" using ls by auto
        with ih five' i' have "sockets (closures P cs ?s) ! i = CLOSED" by blast
        then show ?thesis by (simp only: step)
      qed
    qed
    have 4: "set (timers (closures P (c # cs) s)) \<subseteq> set (timers s)"
      using ih tm by (simp only: step) blast
    from 1 2 3 4 show ?thesis by blast
  next
    case False
    with Cons.prems(6) have k: "k = 4" by simp
    from eff(4) k Cons.prems(5) have w: "wsRef ?s = None" by simp
    have so: "sockets ?s = (sockets s)[w := CLOSED]"
      using eff(5) k Cons.prems(5) by simp
    have e: "closures P (c # cs) s = ?s" by (simp add: closures_without_socket [OF w])
    show ?thesis using tm wl by (simp only: e so) (auto simp: nth_list_update)
  qed
qed

lemma schedule_formula:
  "map (\<lambda>N. min (1000 * 2 ^ (N - 1)) 10000) [1..<Suc (min n 5)] = take n (map timeout [0..<5])"
proof -
  have "[1..<Suc (min n 5)] = map Suc [0..<min n 5]" by (simp add: map_Suc_upt)
  moreover have "take n [0..<5] = [0..<min n 5]"
    by (cases "n \<le> 5") (simp_all add: min_def take_upt)
  then have "take n (map timeout [0..<5]) = map timeout [0..<min n 5]"
    by (simp add: take_map)
  ultimately show ?thesis by (simp add: timeout_def comp_def)
qed

section \<open>What \<open>cleanup\<close> and \<open>reconnect\<close> do\<close>

text \<open>
  In every state \<open>reconnect\<close> resets the attempt counter, cancels the timeout whose
  handle \<open>reconnectTimeoutRef\<close> holds, asks the socket that \<open>wsRef\<close> holds to close,
  schedules nothing and, where construction succeeds, constructs exactly one socket
  at once and stores it in \<open>wsRef\<close>.
\<close>

lemma cleanup_effects:
  "reconnectTimeoutRef (cleanup s) = None
   \<and> wsRef (cleanup s) = None
   \<and> timers (cleanup s)
       = (case reconnectTimeoutRef s of
            None \<Rightarrow> timers s
          | Some t \<Rightarrow> filter (\<lambda>p. fst p \<noteq> t) (timers s))
   \<and> sockets (cleanup s)
       = (case wsRef s of
            None \<Rightarrow> sockets s
          | Some w \<Rightarrow>
              if readyState_of s w = Some CONNECTING \<or> readyState_of s w = Some OPEN
              then (sockets s)[w := CLOSING] else sockets s)
   \<and> scheduled_delays (trace (cleanup s)) = scheduled_delays (trace s)
   \<and> constructed (trace (cleanup s)) = constructed (trace s)"
  by (simp add: cleanup_def clearTimeout_def ws_close_def emit_def Let_def readyState_of_def
        scheduled_delays_append constructed_append split: option.splits)

lemma reconnect_effects:
  "reconnectAttemptsRef (reconnect P s) = 0
   \<and> reconnectTimeoutRef (reconnect P s) = None
   \<and> timers (reconnect P s)
       = (case reconnectTimeoutRef s of
            None \<Rightarrow> timers s
          | Some t \<Rightarrow> filter (\<lambda>p. fst p \<noteq> t) (timers s))
   \<and> scheduled_delays (trace (reconnect P s)) = scheduled_delays (trace s)
   \<and> (constructs P \<longrightarrow>
        wsRef (reconnect P s) = Some (length (sockets s))
        \<and> sockets (reconnect P s) = sockets (cleanup s) @ [CONNECTING]
        \<and> constructed (trace (reconnect P s)) = constructed (trace s) @ [length (sockets s)])"
proof -
  let ?c = "(cleanup s)\<lparr>reconnectAttemptsRef := 0\<rparr>"
  have w: "current_readyState ?c = None"
    by (simp add: current_readyState_def cleanup_effects)
  have l: "length (sockets (cleanup s)) = length (sockets s)"
    by (simp add: cleanup_effects split: option.splits)
  show ?thesis
    unfolding reconnect_def
    using w l
    by (simp add: connect_def connect_try_def new_WebSocket_def emit_def maxReconnectAttempts_def
          cleanup_effects scheduled_delays_append constructed_append)
qed

section \<open>The counter, and the schedule along one chain of retries\<close>

text \<open>
  The attempt counter after an event: zero after a delivered open event and
  after \<open>reconnect\<close>, one more after a timeout that fired, and unchanged after
  anything else, including every event the platform cannot deliver. So an event
  that lowers the counter is an open event or a \<open>reconnect\<close>, and over any sequence
  of events without these two the counter never decreases. Once the counter has
  reached the cap of five, \<open>connect\<close> constructs no socket.
\<close>

lemma counter_discipline:
  "reconnectAttemptsRef (step P e s) =
     (if deliverable s e \<and> resets e then 0
      else if deliverable s e \<and> fires e then reconnectAttemptsRef s + 1
      else reconnectAttemptsRef s)
   \<and> (reconnectAttemptsRef (step P e s) < reconnectAttemptsRef s \<longrightarrow> resets e)
   \<and> ((\<forall>e'\<in>set es. \<not> resets e') \<longrightarrow>
        reconnectAttemptsRef s \<le> reconnectAttemptsRef (run P es s))
   \<and> (maxReconnectAttempts \<le> reconnectAttemptsRef s \<longrightarrow>
        sockets (connect P s) = sockets s \<and> wsRef (connect P s) = wsRef s)"
  using run_attempts_monotone [of es s P] connect_at_cap [of s P]
  by (auto simp: step_attempts split: if_splits)

lemma counter_discipline_example:
  "reconnectAttemptsRef exhausted = 5
   \<and> reconnectAttemptsRef (step obliging Reconnect exhausted) = 0
   \<and> reconnectAttemptsRef (step obliging Reconnect exhausted) < reconnectAttemptsRef exhausted
   \<and> resets Reconnect
   \<and> \<not> resets Mount \<and> \<not> resets (Send JNull) \<and> \<not> resets Cleanup
   \<and> reconnectAttemptsRef exhausted
        \<le> reconnectAttemptsRef (run obliging [Mount, Send JNull, Cleanup] exhausted)
   \<and> maxReconnectAttempts \<le> reconnectAttemptsRef exhausted
   \<and> sockets (connect obliging exhausted) = sockets exhausted"
  using counter_discipline [of obliging Reconnect exhausted "[Mount, Send JNull, Cleanup]"]
  by (simp add: exhausted_state maxReconnectAttempts_def deliverable_def)

text \<open>
  One chain of retries: every closure is of the socket that \<open>wsRef\<close> holds and is
  followed by its own timeout before anything else happens. Start with the attempt
  counter at zero and \<open>wsRef\<close> holding a socket that is not closed, on a platform
  where construction succeeds, and let that socket and each one constructed after
  it close with any code other than 1000. Then the delays scheduled are
  \<open>min (1000 * 2 ^ (N - 1)) 10000\<close> for \<open>N = 1, ..., 5\<close>, as many as there are closures
  and never more than five. The counter ends at the number of closures, at most
  five; at most four sockets are constructed. After five closures \<open>wsRef\<close> is empty,
  the socket the scenario started with and every socket constructed in it are
  closed, and no timeout is pending that was not pending before, so nothing of the
  chain is left that could close or fire; \<open>connect\<close> then constructs nothing, as it
  does in every state whose counter has reached five. Closures of sockets that
  \<open>wsRef\<close> no longer holds are outside this lemma.
\<close>

lemma chained_retry_schedule:
  assumes "constructs P" and "reconnectAttemptsRef s = 0"
    and "wsRef s = Some w" and "readyState_of s w = Some r" and "r \<noteq> CLOSED"
    and "\<forall>c\<in>set codes. c \<noteq> 1000"
  shows "scheduled_delays (trace (closures P codes s))
           = scheduled_delays (trace s)
             @ map (\<lambda>N. min (1000 * 2 ^ (N - 1)) 10000) [1..<Suc (min (length codes) 5)]
    \<and> reconnectAttemptsRef (closures P codes s) = min (length codes) 5
    \<and> length (constructed (trace (closures P codes s)))
        = length (constructed (trace s)) + min (length codes) 4
    \<and> (5 \<le> length codes \<longrightarrow>
         wsRef (closures P codes s) = None
         \<and> sockets (connect P (closures P codes s)) = sockets (closures P codes s)
         \<and> constructed (trace (connect P (closures P codes s)))
             = constructed (trace (closures P codes s)))
    \<and> (5 \<le> length codes \<longrightarrow>
         (\<forall>i<length (sockets (closures P codes s)).
            i = w \<or> length (sockets s) \<le> i \<longrightarrow> sockets (closures P codes s) ! i = CLOSED))
    \<and> set (timers (closures P codes s)) \<subseteq> set (timers s)
    \<and> (\<forall>s'. maxReconnectAttempts \<le> reconnectAttemptsRef s' \<longrightarrow>
         sockets (connect P s') = sockets s'
         \<and> constructed (trace (connect P s')) = constructed (trace s'))"
proof -
  note lv = closures_leave_nothing [OF assms(1) assms(6) assms(3) assms(4) assms(5) assms(2)]
  have 4: "5 \<le> length codes \<longrightarrow>
         (\<forall>i<length (sockets (closures P codes s)).
            i = w \<or> length (sockets s) \<le> i \<longrightarrow> sockets (closures P codes s) ! i = CLOSED)"
    and 5: "set (timers (closures P codes s)) \<subseteq> set (timers s)"
    using lv by simp_all
  note sch = closures_schedule [OF assms(1) assms(6) assms(3) assms(4) assms(5) assms(2)]
  have att: "reconnectAttemptsRef (closures P codes s) = min (length codes) 5"
    and del: "scheduled_delays (trace (closures P codes s))
       = scheduled_delays (trace s) @ take (length codes) (map timeout [0..<5])"
    and con: "length (constructed (trace (closures P codes s)))
        = length (constructed (trace s)) + min (length codes) 4"
    and ws: "5 \<le> length codes \<Longrightarrow> wsRef (closures P codes s) = None"
    using sch by simp_all
  have cap: "maxReconnectAttempts \<le> reconnectAttemptsRef (closures P codes s)"
    if "5 \<le> length codes"
    using that by (simp add: att maxReconnectAttempts_def)
  have 1: "scheduled_delays (trace (closures P codes s))
           = scheduled_delays (trace s)
             @ map (\<lambda>N. min (1000 * 2 ^ (N - 1)) 10000) [1..<Suc (min (length codes) 5)]"
    by (simp only: schedule_formula del)
  have 2: "5 \<le> length codes \<longrightarrow>
         wsRef (closures P codes s) = None
         \<and> sockets (connect P (closures P codes s)) = sockets (closures P codes s)
         \<and> constructed (trace (connect P (closures P codes s)))
             = constructed (trace (closures P codes s))"
    using ws connect_at_cap [OF cap] by blast
  have 3: "\<forall>s'. maxReconnectAttempts \<le> reconnectAttemptsRef s' \<longrightarrow>
         sockets (connect P s') = sockets s'
         \<and> constructed (trace (connect P s')) = constructed (trace s')"
    using connect_at_cap by blast
  from 1 att con 2 3 4 5 show ?thesis by blast
qed

lemma chained_retry_schedule_example:
  "constructs obliging
   \<and> reconnectAttemptsRef (run obliging [Mount] (initial 0 None)) = 0
   \<and> wsRef (run obliging [Mount] (initial 0 None)) = Some 0
   \<and> readyState_of (run obliging [Mount] (initial 0 None)) 0 = Some CONNECTING
   \<and> 1000 \<notin> set [1006, 1001, 1011, 1006, 1005, 1006::nat]
   \<and> scheduled_delays (trace (closures obliging [1006, 1001, 1011, 1006, 1005, 1006]
        (run obliging [Mount] (initial 0 None)))) = [1000, 2000, 4000, 8000, 10000]
   \<and> reconnectAttemptsRef (closures obliging [1006, 1001, 1011, 1006, 1005, 1006]
        (run obliging [Mount] (initial 0 None))) = 5
   \<and> length (constructed (trace (closures obliging [1006, 1001, 1011, 1006, 1005, 1006]
        (run obliging [Mount] (initial 0 None))))) = 5
   \<and> wsRef (closures obliging [1006, 1001, 1011, 1006, 1005, 1006]
        (run obliging [Mount] (initial 0 None))) = None
   \<and> timers (closures obliging [1006, 1001, 1011, 1006, 1005, 1006]
        (run obliging [Mount] (initial 0 None))) = []
   \<and> sockets (connect obliging (closures obliging [1006, 1001, 1011, 1006, 1005, 1006]
        (run obliging [Mount] (initial 0 None))))
       = sockets (closures obliging [1006, 1001, 1011, 1006, 1005, 1006]
        (run obliging [Mount] (initial 0 None)))"
proof -
  let ?s = "run obliging [Mount] (initial 0 None)"
  let ?codes = "[1006, 1001, 1011, 1006, 1005, 1006] :: nat list"
  have m: "?s
     = \<lparr>isConnected = False, wsRef = Some 0, reconnectTimeoutRef = None,
        reconnectAttemptsRef = 0, messageHandlerRef = 0, errorHandlerRef = None,
        sockets = [CONNECTING], timers = [], nextTimer = 1, trace = [Constructed 0]\<rparr>"
    by (simp add: operations events scenario)
  have h: "constructs obliging" by (simp add: obliging_def)
  have a: "reconnectAttemptsRef ?s = 0" and b: "wsRef ?s = Some 0"
    and c: "readyState_of ?s 0 = Some CONNECTING"
    and t: "scheduled_delays (trace ?s) = []" and k: "constructed (trace ?s) = [0]"
    and tm: "timers ?s = []"
    by (simp_all only: m) (simp_all add: readyState_of_def)
  have d: "CONNECTING \<noteq> CLOSED" by simp
  have e: "\<forall>c\<in>set ?codes. c \<noteq> 1000" by simp
  have u: "map (\<lambda>N. min (1000 * 2 ^ (N - 1)) 10000) [1..<Suc (min (length ?codes) 5)]
             = [1000, 2000, 4000, 8000, 10000::nat]"
    by (simp add: upt_rec)
  have n: "1000 \<notin> set ?codes" by simp
  from chained_retry_schedule [OF h a b c d e] h a b c n
  show ?thesis by (simp only: t k u tm) simp
qed

section \<open>The claims\<close>

text \<open>
  C6. While the socket that \<open>wsRef\<close> holds is open or connecting, \<open>connect\<close> does
  nothing: it returns the state it was given, so no socket is constructed, no
  effect is traced and no cell of the manager changes. The same holds for the
  mount effect, which is a call of \<open>connect\<close>.
\<close>

theorem connect_idempotent:
  assumes "current_readyState s = Some OPEN \<or> current_readyState s = Some CONNECTING"
  shows "connect P s = s \<and> step P Mount s = s"
  using assms by (simp add: connect_def events)

theorem connect_idempotent_witness:
  "current_readyState (run obliging [Mount] (initial 0 None)) = Some CONNECTING
   \<and> connect obliging (run obliging [Mount] (initial 0 None))
       = run obliging [Mount] (initial 0 None)
   \<and> step obliging Mount (run obliging [Mount] (initial 0 None))
       = run obliging [Mount] (initial 0 None)"
  using connect_idempotent [of "run obliging [Mount] (initial 0 None)" obliging]
  by (simp add: operations events scenario)

text \<open>
  C8. When \<open>connect\<close> reaches the constructor and the constructor throws, the
  exception is the \<open>Inl\<close> result of the \<open>try\<close> body and \<open>connect\<close> still returns a
  state: the state it was given with one more line on the error console. The socket
  reference, the attempt counter, the connected flag, the sockets and the pending
  timeouts are as before, so no retry is scheduled.
\<close>

theorem construction_failure_contained:
  assumes "\<not> constructs P"
    and "current_readyState s \<noteq> Some OPEN"
    and "current_readyState s \<noteq> Some CONNECTING"
    and "reconnectAttemptsRef s < maxReconnectAttempts"
  shows "connect_try P s = Inl ConstructionError
    \<and> connect P s = s\<lparr>trace := trace s @ [ConsoleError ''WebSocket Connection Error:'']\<rparr>
    \<and> wsRef (connect P s) = wsRef s
    \<and> reconnectAttemptsRef (connect P s) = reconnectAttemptsRef s
    \<and> isConnected (connect P s) = isConnected s
    \<and> sockets (connect P s) = sockets s
    \<and> timers (connect P s) = timers s
    \<and> reconnectTimeoutRef (connect P s) = reconnectTimeoutRef s"
  using assms by (simp add: connect_def connect_try_def new_WebSocket_def emit_def)

theorem construction_failure_contained_witness:
  "\<not> constructs refusing
   \<and> current_readyState (initial 0 None) \<noteq> Some OPEN
   \<and> current_readyState (initial 0 None) \<noteq> Some CONNECTING
   \<and> reconnectAttemptsRef (initial 0 None) < maxReconnectAttempts
   \<and> connect_try refusing (initial 0 None) = Inl ConstructionError
   \<and> connect refusing (initial 0 None)
       = (initial 0 None)\<lparr>trace := [ConsoleError ''WebSocket Connection Error:'']\<rparr>
   \<and> timers (connect refusing (initial 0 None)) = []"
  using construction_failure_contained [of refusing "initial 0 None"]
  by (simp add: operations scenario refusing_def)

text \<open>
  C3. A delivered close event with code 1000 sets the connected flag to false and
  clears \<open>wsRef\<close>, and it schedules nothing: the pending timeouts, the stored handle
  and the delays ever scheduled are as before. A delivered close event with any
  other code appends one timeout and stores its handle. No event other than a close
  with a code different from 1000 makes the list of pending timeouts longer.
\<close>

theorem normal_closure_never_retries:
  "(deliverable s (Closed w 1000) \<longrightarrow>
      isConnected (step P (Closed w 1000) s) = False
      \<and> wsRef (step P (Closed w 1000) s) = None
      \<and> timers (step P (Closed w 1000) s) = timers s
      \<and> reconnectTimeoutRef (step P (Closed w 1000) s) = reconnectTimeoutRef s
      \<and> scheduled_delays (trace (step P (Closed w 1000) s)) = scheduled_delays (trace s))
   \<and> (deliverable s (Closed w c) \<and> c \<noteq> 1000 \<longrightarrow>
      timers (step P (Closed w c) s) = timers s @ [(nextTimer s, timeout (reconnectAttemptsRef s))]
      \<and> reconnectTimeoutRef (step P (Closed w c) s) = Some (nextTimer s))
   \<and> (length (timers s) < length (timers (step P e s)) \<longrightarrow> (\<exists>w' c'. e = Closed w' c' \<and> c' \<noteq> 1000))"
proof -
  have a: "deliverable s (Closed w 1000) \<longrightarrow>
      isConnected (step P (Closed w 1000) s) = False
      \<and> wsRef (step P (Closed w 1000) s) = None
      \<and> timers (step P (Closed w 1000) s) = timers s
      \<and> reconnectTimeoutRef (step P (Closed w 1000) s) = reconnectTimeoutRef s
      \<and> scheduled_delays (trace (step P (Closed w 1000) s)) = scheduled_delays (trace s)"
    by (simp add: step_def react_def ws_onclose_def emit_def scheduled_delays_append)
  have b: "deliverable s (Closed w c) \<and> c \<noteq> 1000 \<longrightarrow>
      timers (step P (Closed w c) s) = timers s @ [(nextTimer s, timeout (reconnectAttemptsRef s))]
      \<and> reconnectTimeoutRef (step P (Closed w c) s) = Some (nextTimer s)"
    by (simp add: step_def react_def ws_onclose_def setTimeout_def emit_def)
  from a b step_schedules_only_on_abnormal_close [of s P e] show ?thesis by blast
qed

theorem normal_closure_never_retries_witness:
  "deliverable (run obliging [Mount, Opened 0] (initial 0 None)) (Closed 0 1000)
   \<and> isConnected (run obliging [Mount, Opened 0] (initial 0 None)) = True
   \<and> isConnected (run obliging [Mount, Opened 0, Closed 0 1000] (initial 0 None)) = False
   \<and> wsRef (run obliging [Mount, Opened 0, Closed 0 1000] (initial 0 None)) = None
   \<and> timers (run obliging [Mount, Opened 0, Closed 0 1000] (initial 0 None)) = []
   \<and> timers (run obliging [Mount, Opened 0, Closed 0 1006] (initial 0 None)) = [(1, 1000)]"
  using normal_closure_never_retries [of "run obliging [Mount, Opened 0] (initial 0 None)" 0 obliging 1006 "Closed 0 1006"]
  by (simp add: operations events scenario)

text \<open>
  C9. The close reaction does not look at the socket the event came from: every
  delivered close event, of any socket and with any code, sets the connected flag
  to false and clears \<open>wsRef\<close>, and leaves the \<open>readyState\<close> of every other socket
  as it is. So a late close of a socket that \<open>reconnect\<close> has replaced clears the
  reference to the newer socket, which stays connecting or open.
\<close>

theorem close_reaction_ignores_origin:
  assumes "deliverable s (Closed w c)"
  shows "isConnected (step P (Closed w c) s) = False
    \<and> wsRef (step P (Closed w c) s) = None
    \<and> (\<forall>w'. w' \<noteq> w \<longrightarrow> readyState_of (step P (Closed w c) s) w' = readyState_of s w')"
  using assms
  by (simp add: step_def react_def ws_onclose_def setTimeout_def emit_def readyState_of_def
        split: prod.splits)

theorem close_reaction_ignores_origin_witness:
  "deliverable (run obliging [Mount, Opened 0, Reconnect] (initial 0 None)) (Closed 0 1000)
   \<and> wsRef (run obliging [Mount, Opened 0, Reconnect] (initial 0 None)) = Some 1
   \<and> wsRef (run obliging [Mount, Opened 0, Reconnect, Closed 0 1000] (initial 0 None)) = None
   \<and> isConnected (run obliging [Mount, Opened 0, Reconnect, Closed 0 1000] (initial 0 None)) = False
   \<and> readyState_of (run obliging [Mount, Opened 0, Reconnect, Closed 0 1000] (initial 0 None)) 1
       = Some CONNECTING"
  using close_reaction_ignores_origin
    [of "run obliging [Mount, Opened 0, Reconnect] (initial 0 None)" 0 1000 obliging]
  by (simp add: operations events scenario)

text \<open>
  C10. \<open>cleanup\<close> does not write the connected flag. All it changes is this: the
  timeout whose handle \<open>reconnectTimeoutRef\<close> holds is no longer pending, the socket
  that \<open>wsRef\<close> holds is closing if it was connecting or open, both refs are empty,
  and the trace has the \<open>clearTimeout\<close> and the \<open>close(1000, ...)\<close> that did it; every
  other cell, the flag and the attempt counter among them, is as before.
  \<open>reconnect\<close> does not write the flag either. An event that changes the flag is
  an open event or a close event. After mount, open and \<open>reconnect\<close>, with the hook
  still mounted, the flag is still true while the replaced socket is closing; the
  close event of that socket then sets it to false.
\<close>

theorem cleanup_never_writes_flag:
  "cleanup s = s
     \<lparr>timers := (case reconnectTimeoutRef s of
                   None \<Rightarrow> timers s
                 | Some t \<Rightarrow> filter (\<lambda>p. fst p \<noteq> t) (timers s)),
      reconnectTimeoutRef := None,
      sockets := (case wsRef s of
                    None \<Rightarrow> sockets s
                  | Some w \<Rightarrow>
                      if readyState_of s w = Some CONNECTING \<or> readyState_of s w = Some OPEN
                      then (sockets s)[w := CLOSING] else sockets s),
      wsRef := None,
      trace := trace s
        @ (case reconnectTimeoutRef s of None \<Rightarrow> [] | Some t \<Rightarrow> [TimeoutCleared t])
        @ (case wsRef s of None \<Rightarrow> [] | Some w \<Rightarrow> [CloseCalled w 1000 ''Component unmounting''])\<rparr>
   \<and> isConnected (cleanup s) = isConnected s
   \<and> reconnectAttemptsRef (cleanup s) = reconnectAttemptsRef s
   \<and> wsRef (cleanup s) = None
   \<and> reconnectTimeoutRef (cleanup s) = None
   \<and> timers (cleanup s)
       = (case reconnectTimeoutRef s of
            None \<Rightarrow> timers s
          | Some t \<Rightarrow> filter (\<lambda>p. fst p \<noteq> t) (timers s))
   \<and> sockets (cleanup s)
       = (case wsRef s of
            None \<Rightarrow> sockets s
          | Some w \<Rightarrow>
              if readyState_of s w = Some CONNECTING \<or> readyState_of s w = Some OPEN
              then (sockets s)[w := CLOSING] else sockets s)
   \<and> trace (cleanup s) = trace s
        @ (case reconnectTimeoutRef s of None \<Rightarrow> [] | Some t \<Rightarrow> [TimeoutCleared t])
        @ (case wsRef s of None \<Rightarrow> [] | Some w \<Rightarrow> [CloseCalled w 1000 ''Component unmounting''])
   \<and> isConnected (reconnect P s) = isConnected s
   \<and> (isConnected (step P e s) \<noteq> isConnected s
        \<longrightarrow> (\<exists>w. e = Opened w) \<or> (\<exists>w c. e = Closed w c))
   \<and> isConnected (run obliging [Mount, Opened 0, Reconnect] (initial 0 None)) = True
   \<and> sockets (run obliging [Mount, Opened 0, Reconnect] (initial 0 None)) = [CLOSING, CONNECTING]
   \<and> isConnected (run obliging [Mount, Opened 0, Reconnect, Closed 0 1000] (initial 0 None))
       = False"
proof -
  have a: "isConnected (cleanup s) = isConnected s
   \<and> reconnectAttemptsRef (cleanup s) = reconnectAttemptsRef s
   \<and> wsRef (cleanup s) = None
   \<and> reconnectTimeoutRef (cleanup s) = None
   \<and> timers (cleanup s)
       = (case reconnectTimeoutRef s of
            None \<Rightarrow> timers s
          | Some t \<Rightarrow> filter (\<lambda>p. fst p \<noteq> t) (timers s))
   \<and> sockets (cleanup s)
       = (case wsRef s of
            None \<Rightarrow> sockets s
          | Some w \<Rightarrow>
              if readyState_of s w = Some CONNECTING \<or> readyState_of s w = Some OPEN
              then (sockets s)[w := CLOSING] else sockets s)
   \<and> trace (cleanup s) = trace s
        @ (case reconnectTimeoutRef s of None \<Rightarrow> [] | Some t \<Rightarrow> [TimeoutCleared t])
        @ (case wsRef s of None \<Rightarrow> [] | Some w \<Rightarrow> [CloseCalled w 1000 ''Component unmounting''])"
    by (simp add: cleanup_def clearTimeout_def ws_close_def emit_def Let_def readyState_of_def
          split: option.splits)
  have b: "isConnected (run obliging [Mount, Opened 0, Reconnect] (initial 0 None)) = True
   \<and> sockets (run obliging [Mount, Opened 0, Reconnect] (initial 0 None)) = [CLOSING, CONNECTING]
   \<and> isConnected (run obliging [Mount, Opened 0, Reconnect, Closed 0 1000] (initial 0 None))
       = False"
    by (simp add: operations events scenario)
  from cleanup_frame [of s] a b reconnect_isConnected [of P s]
    flag_written_only_by_open_and_close [of P e s]
  show ?thesis by blast
qed

theorem cleanup_never_writes_flag_witness:
  "isConnected (step obliging (Opened 1) (run obliging [Mount, Closed 0 1006, Mount] (initial 0 None)))
     \<noteq> isConnected (run obliging [Mount, Closed 0 1006, Mount] (initial 0 None))
   \<and> timers (run obliging [Mount, Closed 0 1006, Mount] (initial 0 None)) = [(1, 1000)]
   \<and> sockets (run obliging [Mount, Closed 0 1006, Mount] (initial 0 None)) = [CLOSED, CONNECTING]
   \<and> timers (cleanup (run obliging [Mount, Closed 0 1006, Mount] (initial 0 None))) = []
   \<and> sockets (cleanup (run obliging [Mount, Closed 0 1006, Mount] (initial 0 None)))
       = [CLOSED, CLOSING]
   \<and> isConnected (cleanup (run obliging [Mount, Closed 0 1006, Mount] (initial 0 None)))
       = isConnected (run obliging [Mount, Closed 0 1006, Mount] (initial 0 None))
   \<and> wsRef (cleanup (run obliging [Mount, Closed 0 1006, Mount] (initial 0 None))) = None
   \<and> trace (cleanup (run obliging [Mount, Closed 0 1006, Mount] (initial 0 None)))
       = [Constructed 0, ConsoleLog ''WebSocket Closed unexpectedly:'', TimeoutSet 1 1000,
          Constructed 1, TimeoutCleared 1, CloseCalled 1 1000 ''Component unmounting'']"
  using cleanup_never_writes_flag
    [of "run obliging [Mount, Closed 0 1006, Mount] (initial 0 None)" obliging "Opened 1"]
  by (simp add: operations events scenario)

text \<open>
  C7. A delivery calls the handler that \<open>messageHandlerRef\<close> holds when the frame is
  dispatched. Of two parseable frames on an open socket with a render between them,
  the first reaches the handler held before and the second reaches the handler of
  the render, and nothing else is called. The render only stores the two handlers:
  the sockets, \<open>wsRef\<close> and the trace are as before, so no socket is closed or
  constructed. From the initial state, the handler the hook was created with, which
  \<open>messageHandlerRef\<close> held when \<open>connect\<close> registered the reactions, is not called
  at all once a render has replaced it.
\<close>

theorem latest_handler_receives:
  assumes "readyState_of s w = Some OPEN"
    and "JSON_parse d1 = Inr v1" and "JSON_parse d2 = Inr v2"
  shows "handler_calls (trace (run P [Received w d1, Render h2 e2, Received w d2] s))
           = handler_calls (trace s) @ [(messageHandlerRef s, v1), (h2, v2)]
    \<and> step P (Render h2 e2) s = s\<lparr>messageHandlerRef := h2, errorHandlerRef := e2\<rparr>
    \<and> sockets (step P (Render h2 e2) s) = sockets s
    \<and> wsRef (step P (Render h2 e2) s) = wsRef s
    \<and> trace (step P (Render h2 e2) s) = trace s
    \<and> (constructs P \<longrightarrow>
        handler_calls (trace (run P
          [Mount, Opened 0, Render h1 e1, Received 0 d1, Render h2 e2, Received 0 d2]
          (initial h0 e0))) = [(h1, v1), (h2, v2)])"
  using two_deliveries [OF assms, of P h2 e2]
    registered_handler_not_called [OF _ assms(2,3), of P h1 e1 h2 e2 h0 e0]
  by (simp add: step_Render)

theorem latest_handler_receives_witness:
  \<open>readyState_of (run obliging [Mount, Opened 0] (initial 7 None)) 0 = Some OPEN
   \<and> JSON_parse ''{"type":"DRAG_END"}'' = Inr (JObject [(units ''type'', JString (units ''DRAG_END''))])
   \<and> constructs obliging
   \<and> handler_calls (trace (run obliging
         [Received 0 ''{"type":"DRAG_END"}'', Render 8 None, Received 0 ''{"type":"DRAG_END"}'']
         (run obliging [Mount, Opened 0] (initial 7 None))))
       = [(7, JObject [(units ''type'', JString (units ''DRAG_END''))]),
          (8, JObject [(units ''type'', JString (units ''DRAG_END''))])]
   \<and> handler_calls (trace (run obliging
         [Mount, Opened 0, Render 1 None, Received 0 ''{"type":"DRAG_END"}'', Render 8 None,
          Received 0 ''{"type":"DRAG_END"}''] (initial 7 None)))
       = [(1, JObject [(units ''type'', JString (units ''DRAG_END''))]),
          (8, JObject [(units ''type'', JString (units ''DRAG_END''))])]\<close>
proof -
  have p: \<open>JSON_parse ''{"type":"DRAG_END"}'' = Inr (JObject [(units ''type'', JString (units ''DRAG_END''))])\<close>
    by (simp add: JSON_parse_def lex_start_def units_def)
  have o: "readyState_of (run obliging [Mount, Opened 0] (initial 7 None)) 0 = Some OPEN"
    by (simp add: operations events scenario)
  have t: "handler_calls (trace (run obliging [Mount, Opened 0] (initial 7 None))) = []"
     and h: "messageHandlerRef (run obliging [Mount, Opened 0] (initial 7 None)) = 7"
    by (simp_all add: operations events scenario)
  have c: "constructs obliging" by (simp add: obliging_def)
  from latest_handler_receives [OF o p p, of obliging 8 None 1 None 7 None] p o t h c
  show ?thesis by simp
qed

text \<open>
  C4, as stated, fails. The frame \<open>{"type":"PING"}\<close> is none of the four variants of
  \<open>WebSocketMessage\<close>, yet \<open>JSON.parse\<close> accepts it and the message handler is called
  with the parsed object: the reaction checks JSON syntax and nothing more.
\<close>

theorem unvalidated_frame_reaches_handler:
  \<open>\<not> parses_as_WebSocketMessage ''{"type":"PING"}''
   \<and> handler_calls (trace (run obliging [Mount, Opened 0, Received 0 ''{"type":"PING"}'']
        (initial 7 None)))
      = [(7, JObject [(units ''type'', JString (units ''PING''))])]\<close>
proof -
  have p: \<open>JSON_parse ''{"type":"PING"}'' = Inr (JObject [(units ''type'', JString (units ''PING''))])\<close>
    by (simp add: JSON_parse_def lex_start_def units_def)
  have n: \<open>\<not> parses_as_WebSocketMessage ''{"type":"PING"}''\<close>
    by (simp add: parses_as_WebSocketMessage_def p field_def units_def)
  have c: \<open>handler_calls (trace (run obliging [Mount, Opened 0, Received 0 ''{"type":"PING"}'']
        (initial 7 None)))
      = [(7, JObject [(units ''type'', JString (units ''PING''))])]\<close>
    by (simp add: events connect_def connect_try_def new_WebSocket_def emit_def current_readyState_def
          readyState_of_def maxReconnectAttempts_def ws_onopen_def scenario ws_onmessage_calls p)
  from n c show ?thesis by simp
qed

text \<open>
  C4, amended. The reaction calls the message handler exactly when \<open>JSON.parse\<close>
  accepts the frame, with the parsed value, whether or not that value is a
  \<open>WebSocketMessage\<close>. A frame that \<open>JSON.parse\<close> rejects adds one line to the error
  console and changes nothing else: the handler is not called, no socket is closed
  and the connected flag, the sockets and \<open>wsRef\<close> are as before.
\<close>

theorem unparseable_frame_discarded:
  "handler_calls (trace (ws_onmessage P d s))
     = handler_calls (trace s)
       @ (case JSON_parse d of Inl e \<Rightarrow> [] | Inr v \<Rightarrow> [(messageHandlerRef s, v)])
   \<and> (JSON_parse d = Inl e \<longrightarrow>
        ws_onmessage P d s = s\<lparr>trace := trace s @ [ConsoleError ''Failed to parse message:'']\<rparr>)
   \<and> isConnected (ws_onmessage P d s) = isConnected s
   \<and> sockets (ws_onmessage P d s) = sockets s
   \<and> wsRef (ws_onmessage P d s) = wsRef s
   \<and> (readyState_of s w = Some OPEN \<longrightarrow> step P (Received w d) s = ws_onmessage P d s)"
  by (simp add: ws_onmessage_calls ws_onmessage_frame events)
     (simp add: ws_onmessage_def emit_def)

theorem unparseable_frame_discarded_witness:
  "JSON_parse ''[object Blob]'' = Inl JSONSyntaxError
   \<and> readyState_of (run obliging [Mount, Opened 0] (initial 7 None)) 0 = Some OPEN
   \<and> step obliging (Received 0 ''[object Blob]'') (run obliging [Mount, Opened 0] (initial 7 None))
      = (run obliging [Mount, Opened 0] (initial 7 None))
          \<lparr>trace := [Constructed 0, ConsoleLog ''WebSocket Connected'',
                     ConsoleError ''Failed to parse message:'']\<rparr>"
proof -
  have p: "JSON_parse ''[object Blob]'' = Inl JSONSyntaxError"
    by (simp add: JSON_parse_def lex_start_def digit_def)
  have o: "readyState_of (run obliging [Mount, Opened 0] (initial 7 None)) 0 = Some OPEN"
    and t: "trace (run obliging [Mount, Opened 0] (initial 7 None))
             = [Constructed 0, ConsoleLog ''WebSocket Connected'']"
    by (simp_all add: operations events scenario)
  from unparseable_frame_discarded
    [of obliging "''[object Blob]''" "run obliging [Mount, Opened 0] (initial 7 None)" JSONSyntaxError 0]
    p o t show ?thesis by simp
qed

text \<open>
  C2. \<open>reconnect\<close> can leave two connections. It closes the socket that \<open>wsRef\<close>
  holds and no other. After mount, open and a first \<open>reconnect\<close>, the close event of
  the replaced socket 0 arrives with code 1000 and clears \<open>wsRef\<close>, although \<open>wsRef\<close>
  held socket 1 by then; socket 1 stays connecting and unreferenced. A second
  \<open>reconnect\<close> finds nothing to close and constructs socket 2 beside it. The same
  happens without a second call when the replaced socket was still connecting and
  its close event carries another code: the retry it schedules constructs socket 2
  while socket 1 is connecting.
\<close>

theorem reconnect_duplicates_connection:
  "wsRef (run obliging [Mount, Opened 0, Reconnect, Closed 0 1000] (initial 0 None)) = None
   \<and> live (run obliging [Mount, Opened 0, Reconnect, Closed 0 1000] (initial 0 None)) = [1]
   \<and> sockets (reconnect obliging
        (run obliging [Mount, Opened 0, Reconnect, Closed 0 1000] (initial 0 None)))
       = [CLOSED, CONNECTING, CONNECTING]
   \<and> live (reconnect obliging
        (run obliging [Mount, Opened 0, Reconnect, Closed 0 1000] (initial 0 None))) = [1, 2]
   \<and> live (run obliging [Mount, Reconnect, Closed 0 1006, TimerFired 1] (initial 0 None)) = [1, 2]"
  by (simp add: operations events scenario live_def upt_rec)

text \<open>
  C1. The schedule does not hold for every sequence of abnormal closures. The close
  reaction schedules a retry for the close event of any socket, also of one that
  \<open>cleanup\<close> has replaced, with the counter as it is then. After mount and
  \<open>reconnect\<close> the counter is zero, socket 0 is closing and socket 1 connecting; they
  close one after the other with code 1006 and both closures schedule 1000 ms,
  where the second should schedule 2000 ms. After mount and six calls of
  \<open>reconnect\<close> the six replaced sockets close one after the other: six timeouts of
  1000 ms are scheduled, and after five of them have fired the sixth is still
  pending and fires, a sixth automatic retry.
\<close>

theorem stale_closures_break_schedule:
  "reconnectAttemptsRef (run obliging [Mount, Reconnect] (initial 0 None)) = 0
   \<and> sockets (run obliging [Mount, Reconnect] (initial 0 None)) = [CLOSING, CONNECTING]
   \<and> scheduled_delays (trace (run obliging [Closed 0 1006, Closed 1 1006]
        (run obliging [Mount, Reconnect] (initial 0 None)))) = [1000, 1000]
   \<and> reconnectAttemptsRef (run obliging
        [Mount, Reconnect, Reconnect, Reconnect, Reconnect, Reconnect, Reconnect]
        (initial 0 None)) = 0
   \<and> scheduled_delays (trace (run obliging
        [Closed 0 1006, Closed 1 1006, Closed 2 1006, Closed 3 1006, Closed 4 1006, Closed 5 1006,
         TimerFired 1, TimerFired 2, TimerFired 3, TimerFired 4, TimerFired 5, TimerFired 6]
        (run obliging [Mount, Reconnect, Reconnect, Reconnect, Reconnect, Reconnect, Reconnect]
          (initial 0 None)))) = [1000, 1000, 1000, 1000, 1000, 1000]
   \<and> deliverable (run obliging
        [Closed 0 1006, Closed 1 1006, Closed 2 1006, Closed 3 1006, Closed 4 1006, Closed 5 1006,
         TimerFired 1, TimerFired 2, TimerFired 3, TimerFired 4, TimerFired 5]
        (run obliging [Mount, Reconnect, Reconnect, Reconnect, Reconnect, Reconnect, Reconnect]
          (initial 0 None))) (TimerFired 6)"
  by (simp add: operations events scenario)

text \<open>
  C5. The counter does not stop at the cap. After mount and six calls of
  \<open>reconnect\<close> the counter is zero. The six replaced sockets then close with code
  1006 and the six timeouts these closures schedule fire; none of these events is
  an open event or a \<open>reconnect\<close>, and the counter ends at six, above the cap of five.
\<close>

theorem counter_passes_cap:
  "reconnectAttemptsRef (run obliging
        [Mount, Reconnect, Reconnect, Reconnect, Reconnect, Reconnect, Reconnect]
        (initial 0 None)) = 0
   \<and> reconnectAttemptsRef (run obliging
        [Closed 0 1006, Closed 1 1006, Closed 2 1006, Closed 3 1006, Closed 4 1006, Closed 5 1006,
         TimerFired 1, TimerFired 2, TimerFired 3, TimerFired 4, TimerFired 5, TimerFired 6]
        (run obliging [Mount, Reconnect, Reconnect, Reconnect, Reconnect, Reconnect, Reconnect]
          (initial 0 None))) = 6
   \<and> \<not> resets (Closed 0 1006) \<and> \<not> resets (TimerFired 1)
   \<and> maxReconnectAttempts = 5"
  by (simp add: operations events scenario)

end
